theory Spec2Isabelle
  imports Main "HOL-Library.Sublist" "HOL-Library.Multiset"
begin

unbundle bit_operations_syntax

section \<open>JavaScript values and strings\<close>

text \<open>
  The attachment descriptor \<^verbatim>\<open>eventContentFile\<close> is the JSON body that the HTTP layer parsed.
  A JavaScript object keeps its properties in insertion order and \<^verbatim>\<open>JSON.stringify\<close> emits
  them in that order, so an object is an association list: the list gives the properties
  in the order in which the object enumerates them.  The schema of the
  \<^verbatim>\<open>/scan\<close> endpoint has strings, booleans, arrays and nested objects only; numbers are left
  out.  A \<open>char\<close> stands for one UTF-16 code unit in the range 0..255.
\<close>

datatype jsval =
    JNull
  | JBool bool
  | JStr string
  | JArr "jsval list"
  | JObj "(string \<times> jsval) list"

text \<open>
  What a call can throw, and what a promise can be rejected with.  A \<open>TypeError\<close> carries
  the expression whose evaluation threw, in place of the message of the engine.
\<close>

datatype errno = ENOENT | EEXIST | ENOTEMPTY | EISDIR | ENOTDIR

datatype exn =
    Error string
  | TypeError string
  | ClientError nat string
  | FsError errno string
  | Rejected string

text \<open>
  Property read \<^verbatim>\<open>o.name\<close>, for the two names the program reads, \<open>url\<close> and \<open>key\<close>.
  Reading a property of \<^verbatim>\<open>null\<close> throws; a boolean, a string and an array have neither
  property, and the result \<open>None\<close> is \<^verbatim>\<open>undefined\<close>.  The keys of an object are distinct.
\<close>

fun js_get :: "jsval \<Rightarrow> string \<Rightarrow> exn + jsval option" where
  "js_get JNull name = Inl (TypeError (''null.'' @ name))"
| "js_get (JObj kvs) name = Inr (map_of kvs name)"
| "js_get _ name = Inr None"

text \<open>Truthiness of a value in a condition, as in \<^verbatim>\<open>if (eventContentFile.key)\<close>.\<close>

fun truthy :: "jsval option \<Rightarrow> bool" where
  "truthy None = False"
| "truthy (Some JNull) = False"
| "truthy (Some (JBool b)) = b"
| "truthy (Some (JStr s)) = (s \<noteq> [])"
| "truthy (Some (JArr xs)) = True"
| "truthy (Some (JObj kvs)) = True"

fun intercalate :: "'a list \<Rightarrow> 'a list list \<Rightarrow> 'a list" where
  "intercalate sep [] = []"
| "intercalate sep [x] = x"
| "intercalate sep (x # y # ys) = x @ sep @ intercalate sep (y # ys)"

definition show_bool :: "bool \<Rightarrow> string" where
  "show_bool b = (if b then ''true'' else ''false'')"

text \<open>String conversion, as done by \<^verbatim>\<open>+\<close> with a string and by a template literal.\<close>

fun js_toString :: "jsval \<Rightarrow> string" where
  "js_toString JNull = ''null''"
| "js_toString (JBool b) = show_bool b"
| "js_toString (JStr s) = s"
| "js_toString (JArr xs) =
     intercalate '','' (map (\<lambda>x. if x = JNull then [] else js_toString x) xs)"
| "js_toString (JObj kvs) = ''[object Object]''"

text \<open>
  \<^verbatim>\<open>x.slice(start, end)\<close> of strings and arrays: a negative index counts from the end, and
  every index is clamped to the length.
\<close>

definition js_index :: "nat \<Rightarrow> int \<Rightarrow> nat" where
  "js_index len i = (if i < 0 then nat (max (int len + i) 0) else min (nat i) len)"

definition js_slice :: "int \<Rightarrow> int option \<Rightarrow> 'a list \<Rightarrow> 'a list" where
  "js_slice start end xs =
     (let from = js_index (length xs) start;
          to = (case end of None \<Rightarrow> length xs | Some e \<Rightarrow> js_index (length xs) e)
      in take (to - from) (drop from xs))"

section \<open>JSON.stringify\<close>

definition hex_digit :: "nat \<Rightarrow> char" where
  "hex_digit n = ''0123456789abcdef'' ! n"

text \<open>The escapes of \<^verbatim>\<open>JSON.stringify\<close>; \<open>CHR 0x22\<close> is the double quote, \<open>CHR 0x5C\<close> the backslash.\<close>

definition json_escape :: "char \<Rightarrow> string" where
  "json_escape c =
     (if c = CHR 0x22 then [CHR 0x5C, CHR 0x22]
      else if c = CHR 0x5C then [CHR 0x5C, CHR 0x5C]
      else if c = CHR 0x08 then [CHR 0x5C, CHR ''b'']
      else if c = CHR 0x0C then [CHR 0x5C, CHR ''f'']
      else if c = CHR 0x0A then [CHR 0x5C, CHR ''n'']
      else if c = CHR 0x0D then [CHR 0x5C, CHR ''r'']
      else if c = CHR 0x09 then [CHR 0x5C, CHR ''t'']
      else if (of_char c :: nat) < 32
        then [CHR 0x5C, CHR ''u'', CHR ''0'', CHR ''0'',
              hex_digit (of_char c div 16), hex_digit (of_char c mod 16)]
      else [c])"

definition json_quote :: "string \<Rightarrow> string" where
  "json_quote s = [CHR 0x22] @ concat (map json_escape s) @ [CHR 0x22]"

fun JSON_stringify :: "jsval \<Rightarrow> string" where
  "JSON_stringify JNull = ''null''"
| "JSON_stringify (JBool b) = show_bool b"
| "JSON_stringify (JStr s) = json_quote s"
| "JSON_stringify (JArr xs) = ''['' @ intercalate '','' (map JSON_stringify xs) @ '']''"
| "JSON_stringify (JObj kvs) =
     ''{'' @ intercalate '',''
              (map (\<lambda>kv. json_quote (fst kv) @ '':'' @ JSON_stringify (snd kv)) kvs) @ ''}''"

section \<open>The fingerprint: SHA-256 in base64\<close>

text \<open>
  \<^verbatim>\<open>hash.update(s)\<close> hashes the UTF-8 encoding of the string: one byte for a code unit below
  128, two bytes for one in 128..255.
\<close>

definition utf8_char :: "char \<Rightarrow> nat list" where
  "utf8_char c =
     (if (of_char c :: nat) < 128 then [of_char c]
      else [192 + of_char c div 64, 128 + of_char c mod 64])"

definition utf8 :: "string \<Rightarrow> nat list" where
  "utf8 s = concat (map utf8_char s)"

text \<open>
  SHA-256 (FIPS 180-4), the algorithm behind \<^verbatim>\<open>crypto.createHash('sha256')\<close>.  A 32-bit
  word is a \<open>nat\<close> below \<open>2 ^ 32\<close>; addition wraps around.
\<close>

type_synonym u32 = nat

definition add32 :: "u32 \<Rightarrow> u32 \<Rightarrow> u32" where
  "add32 a b = (a + b) mod 4294967296"

definition rotr :: "nat \<Rightarrow> u32 \<Rightarrow> u32" where
  "rotr n x = x div 2 ^ n + (x mod 2 ^ n) * 2 ^ (32 - n)"

definition shr :: "nat \<Rightarrow> u32 \<Rightarrow> u32" where
  "shr n x = x div 2 ^ n"

definition not32 :: "u32 \<Rightarrow> u32" where
  "not32 x = 4294967295 - x"

definition Ch :: "u32 \<Rightarrow> u32 \<Rightarrow> u32 \<Rightarrow> u32" where
  "Ch x y z = (x AND y) XOR (not32 x AND z)"

definition Maj :: "u32 \<Rightarrow> u32 \<Rightarrow> u32 \<Rightarrow> u32" where
  "Maj x y z = (x AND y) XOR (x AND z) XOR (y AND z)"

definition Sigma0 :: "u32 \<Rightarrow> u32" where
  "Sigma0 x = rotr 2 x XOR rotr 13 x XOR rotr 22 x"

definition Sigma1 :: "u32 \<Rightarrow> u32" where
  "Sigma1 x = rotr 6 x XOR rotr 11 x XOR rotr 25 x"

definition sigma0 :: "u32 \<Rightarrow> u32" where
  "sigma0 x = rotr 7 x XOR rotr 18 x XOR shr 3 x"

definition sigma1 :: "u32 \<Rightarrow> u32" where
  "sigma1 x = rotr 17 x XOR rotr 19 x XOR shr 10 x"

definition K256 :: "u32 list" where
  "K256 = [
    1116352408, 1899447441, 3049323471, 3921009573, 961987163, 1508970993,
    2453635748, 2870763221, 3624381080, 310598401, 607225278, 1426881987,
    1925078388, 2162078206, 2614888103, 3248222580, 3835390401, 4022224774,
    264347078, 604807628, 770255983, 1249150122, 1555081692, 1996064986,
    2554220882, 2821834349, 2952996808, 3210313671, 3336571891, 3584528711,
    113926993, 338241895, 666307205, 773529912, 1294757372, 1396182291,
    1695183700, 1986661051, 2177026350, 2456956037, 2730485921, 2820302411,
    3259730800, 3345764771, 3516065817, 3600352804, 4094571909, 275423344,
    430227734, 506948616, 659060556, 883997877, 958139571, 1322822218,
    1537002063, 1747873779, 1955562222, 2024104815, 2227730452, 2361852424,
    2428436474, 2756734187, 3204031479, 3329325298]"

type_synonym hash_state = "u32 \<times> u32 \<times> u32 \<times> u32 \<times> u32 \<times> u32 \<times> u32 \<times> u32"

definition H0 :: hash_state where
  "H0 = (1779033703, 3144134277, 1013904242, 2773480762,
         1359893119, 2600822924, 528734635, 1541459225)"

fun temp1 :: "hash_state \<Rightarrow> u32 \<Rightarrow> u32 \<Rightarrow> u32" where
  "temp1 (a, b, c, d, e, f, g, h) k w =
     add32 (add32 (add32 (add32 h (Sigma1 e)) (Ch e f g)) k) w"

fun temp2 :: "hash_state \<Rightarrow> u32" where
  "temp2 (a, b, c, d, e, f, g, h) = add32 (Sigma0 a) (Maj a b c)"

fun rotate_in :: "hash_state \<Rightarrow> u32 \<Rightarrow> u32 \<Rightarrow> hash_state" where
  "rotate_in (a, b, c, d, e, f, g, h) t1 t2 = (add32 t1 t2, a, b, c, add32 d t1, e, f, g)"

text \<open>One round, with the round constant \<open>k\<close> and the schedule word \<open>w\<close>.\<close>

fun round256 :: "hash_state \<Rightarrow> u32 \<times> u32 \<Rightarrow> hash_state" where
  "round256 s (k, w) = rotate_in s (temp1 s k w) (temp2 s)"

text \<open>The message schedule; \<open>ws\<close> holds the words computed so far, the latest first.\<close>

fun schedule :: "nat \<Rightarrow> u32 list \<Rightarrow> u32 list" where
  "schedule 0 ws = rev ws"
| "schedule (Suc n) ws =
     schedule n (add32 (add32 (add32 (sigma1 (ws ! 1)) (ws ! 6)) (sigma0 (ws ! 14))) (ws ! 15) # ws)"

fun add_state :: "hash_state \<Rightarrow> hash_state \<Rightarrow> hash_state" where
  "add_state (a, b, c, d, e, f, g, h) (a', b', c', d', e', f', g', h') =
     (add32 a a', add32 b b', add32 c c', add32 d d',
      add32 e e', add32 f f', add32 g g', add32 h h')"

definition compress :: "hash_state \<Rightarrow> u32 list \<Rightarrow> hash_state" where
  "compress s block = add_state s (foldl round256 s (zip K256 (schedule 48 (rev block))))"

fun words_of :: "nat list \<Rightarrow> u32 list" where
  "words_of (a # b # c # d # rest) = (((a * 256 + b) * 256 + c) * 256 + d) # words_of rest"
| "words_of _ = []"

fun be_bytes :: "nat \<Rightarrow> nat \<Rightarrow> nat list" where
  "be_bytes 0 x = []"
| "be_bytes (Suc n) x = be_bytes n (x div 256) @ [x mod 256]"

definition pad256 :: "nat list \<Rightarrow> nat list" where
  "pad256 m = m @ [128] @ replicate ((119 - length m mod 64) mod 64) 0
                @ be_bytes 8 (8 * length m)"

fun blocks :: "nat \<Rightarrow> u32 list \<Rightarrow> u32 list list" where
  "blocks 0 ws = []"
| "blocks (Suc n) ws = take 16 ws # blocks n (drop 16 ws)"

fun state_bytes :: "hash_state \<Rightarrow> nat list" where
  "state_bytes (a, b, c, d, e, f, g, h) =
     be_bytes 4 a @ be_bytes 4 b @ be_bytes 4 c @ be_bytes 4 d @
     be_bytes 4 e @ be_bytes 4 f @ be_bytes 4 g @ be_bytes 4 h"

definition digest :: "u32 list \<Rightarrow> nat list" where
  "digest ws = state_bytes (foldl compress H0 (blocks (length ws div 16) ws))"

definition sha256 :: "nat list \<Rightarrow> nat list" where
  "sha256 m = digest (words_of (pad256 m))"

text \<open>\<^verbatim>\<open>hash.digest('base64')\<close>: the standard alphabet, padded with \<open>=\<close>.\<close>

definition b64 :: "nat \<Rightarrow> char" where
  "b64 n = ''ABCDEFGHIJKLMNOPQRSTUVWXYZabcdefghijklmnopqrstuvwxyz0123456789+/'' ! n"

fun base64 :: "nat list \<Rightarrow> string" where
  "base64 (a # b # c # rest) =
     b64 (a div 4) # b64 (a mod 4 * 16 + b div 16) # b64 (b mod 16 * 4 + c div 64) #
     b64 (c mod 64) # base64 rest"
| "base64 [a, b] = [b64 (a div 4), b64 (a mod 4 * 16 + b div 16), b64 (b mod 16 * 4), CHR ''='']"
| "base64 [a] = [b64 (a div 4), b64 (a mod 4 * 16), CHR ''='', CHR ''='']"
| "base64 [] = []"

definition base64sha256 :: "string \<Rightarrow> string" where
  "base64sha256 s = base64 (sha256 (utf8 s))"

section \<open>Paths and the file system\<close>

text \<open>
  \<^verbatim>\<open>path.join\<close> of Node on a POSIX system: the arguments are joined by \<open>/\<close> and the result is
  normalised, on the text alone and without a look at the file system.  Normalising drops empty segments and \<open>.\<close>, and lets \<open>..\<close> remove the segment
  before it; a relative path keeps a leading \<open>..\<close>.
\<close>

fun split_path :: "string \<Rightarrow> string list" where
  "split_path [] = [[]]"
| "split_path (c # cs) =
     (if c = CHR ''/'' then [] # split_path cs
      else (case split_path cs of seg # segs \<Rightarrow> (c # seg) # segs | [] \<Rightarrow> [[c]]))"

text \<open>The segments kept so far are in \<open>acc\<close>, the latest first; \<open>rel\<close> says that the path
  is relative.\<close>

fun normalize_segments :: "bool \<Rightarrow> string list \<Rightarrow> string list \<Rightarrow> string list" where
  "normalize_segments rel acc [] = rev acc"
| "normalize_segments rel acc (seg # segs) =
     (if seg = [] \<or> seg = ''.'' then normalize_segments rel acc segs
      else if seg = ''..'' then
        (case acc of
           s # ss \<Rightarrow>
             if s = ''..'' then normalize_segments rel (seg # acc) segs
             else normalize_segments rel ss segs
         | [] \<Rightarrow>
             if rel then normalize_segments rel [seg] segs
             else normalize_segments rel [] segs)
      else normalize_segments rel (seg # acc) segs)"

definition is_absolute :: "string \<Rightarrow> bool" where
  "is_absolute p = (case p of c # cs \<Rightarrow> c = CHR ''/'' | [] \<Rightarrow> False)"

definition path_normalize :: "string \<Rightarrow> string" where
  "path_normalize p =
     (if p = [] then ''.''
      else
        (let segs = normalize_segments (\<not> is_absolute p) [] (split_path p);
             body = intercalate ''/'' segs;
             trailing = (last p = CHR ''/'')
         in if body = [] then (if is_absolute p then ''/'' else if trailing then ''./'' else ''.'')
            else (if is_absolute p then ''/'' else []) @ body @ (if trailing then ''/'' else [])))"

definition path_join :: "string \<Rightarrow> string \<Rightarrow> string" where
  "path_join a b =
     (if a = [] \<and> b = [] then ''.''
      else if a = [] then path_normalize b
      else if b = [] then path_normalize a
      else path_normalize (a @ ''/'' @ b))"

text \<open>
  The file system holds directories and regular files, without symbolic links.  An entry
  is named by the segments that lead to it: from the root, when the name starts with the
  empty segment (the root directory is \<open>[[]]\<close>), and else from the working directory of
  the process, which is \<open>[]\<close>.
\<close>

type_synonym buffer = "nat list"
type_synonym fs_key = "string list"

record filesystem =
  dirs :: "fs_key list"
  files :: "(fs_key \<times> buffer) list"

definition is_dir :: "filesystem \<Rightarrow> fs_key \<Rightarrow> bool" where
  "is_dir fsys k = (k \<in> set (dirs fsys))"

definition is_file :: "filesystem \<Rightarrow> fs_key \<Rightarrow> bool" where
  "is_file fsys k = (k \<in> set (map fst (files fsys)))"

text \<open>The directory that holds an entry; the root holds itself.\<close>

definition parent :: "fs_key \<Rightarrow> fs_key" where
  "parent k =
     (if k = [[]] then [[]]
      else if k = [] \<or> last k = ''..'' then k @ [''..'']
      else butlast k)"

text \<open>
  The system resolves a path segment by segment, from the directory \<open>k\<close>.  An empty
  segment and \<open>.\<close> stay in the directory and \<open>..\<close> goes to the one that holds it.  Every
  segment that is followed by another one must name a directory that exists; only the
  last segment may name something else, or nothing yet.
\<close>

fun resolve :: "filesystem \<Rightarrow> fs_key \<Rightarrow> string list \<Rightarrow> errno + fs_key" where
  "resolve fsys k [] = Inr k"
| "resolve fsys k (seg # segs) =
     (if seg = [] \<or> seg = ''.'' then resolve fsys k segs
      else if seg = ''..'' then resolve fsys (parent k) segs
      else if segs = [] then Inr (k @ [seg])
      else if is_dir fsys (k @ [seg]) then resolve fsys (k @ [seg]) segs
      else Inl (if is_file fsys (k @ [seg]) then ENOTDIR else ENOENT))"

definition fs_key :: "filesystem \<Rightarrow> string \<Rightarrow> errno + fs_key" where
  "fs_key fsys p =
     (if p = [] then Inl ENOENT
      else resolve fsys (if is_absolute p then [[]] else []) (split_path p))"

text \<open>
  \<^verbatim>\<open>fs.mkdtempSync(prefix)\<close> appends six random characters, which the caller of the model
  supplies as \<open>rnd\<close>, and creates that directory.
\<close>

definition mkdtempSync :: "string \<Rightarrow> string \<Rightarrow> filesystem \<Rightarrow> exn + string \<times> filesystem" where
  "mkdtempSync pre rnd fsys =
     (let p = pre @ rnd
      in case fs_key fsys p of
           Inl en \<Rightarrow> Inl (FsError en p)
         | Inr k \<Rightarrow>
             if \<not> is_dir fsys (parent k) then Inl (FsError ENOENT p)
             else if is_dir fsys k \<or> is_file fsys k then Inl (FsError EEXIST p)
             else Inr (p, fsys\<lparr>dirs := k # dirs fsys\<rparr>))"

definition writeFileSync :: "string \<Rightarrow> buffer \<Rightarrow> filesystem \<Rightarrow> exn + filesystem" where
  "writeFileSync p data fsys =
     (case fs_key fsys p of
        Inl en \<Rightarrow> Inl (FsError en p)
      | Inr k \<Rightarrow>
          if is_dir fsys k then Inl (FsError EISDIR p)
          else if \<not> is_dir fsys (parent k) then Inl (FsError ENOENT p)
          else Inr (fsys\<lparr>files := (k, data) # filter (\<lambda>e. fst e \<noteq> k) (files fsys)\<rparr>))"

definition readFileSync :: "string \<Rightarrow> filesystem \<Rightarrow> exn + buffer" where
  "readFileSync p fsys =
     (case fs_key fsys p of
        Inl en \<Rightarrow> Inl (FsError en p)
      | Inr k \<Rightarrow>
          (case map_of (files fsys) k of
             Some data \<Rightarrow> Inr data
           | None \<Rightarrow> Inl (FsError (if is_dir fsys k then EISDIR else ENOENT) p)))"

definition unlinkSync :: "string \<Rightarrow> filesystem \<Rightarrow> exn + filesystem" where
  "unlinkSync p fsys =
     (case fs_key fsys p of
        Inl en \<Rightarrow> Inl (FsError en p)
      | Inr k \<Rightarrow>
          if is_file fsys k
          then Inr (fsys\<lparr>files := filter (\<lambda>e. fst e \<noteq> k) (files fsys)\<rparr>)
          else Inl (FsError (if is_dir fsys k then EISDIR else ENOENT) p))"

definition rmdirSync :: "string \<Rightarrow> filesystem \<Rightarrow> exn + filesystem" where
  "rmdirSync p fsys =
     (case fs_key fsys p of
        Inl en \<Rightarrow> Inl (FsError en p)
      | Inr k \<Rightarrow>
          if \<not> is_dir fsys k
          then Inl (FsError (if is_file fsys k then ENOTDIR else ENOENT) p)
          else if list_ex (\<lambda>c. parent c = k \<and> c \<noteq> k) (dirs fsys @ map fst (files fsys))
          then Inl (FsError ENOTEMPTY p)
          else Inr (fsys\<lparr>dirs := removeAll k (dirs fsys)\<rparr>))"

section \<open>State, effects and collaborators\<close>

text \<open>
  The result of \<^verbatim>\<open>executeCommand\<close>, and the same object after \<^verbatim>\<open>generateReport\<close> has set
  its \<^verbatim>\<open>resultSecret\<close>.
\<close>

record exec_result =
  clean :: bool
  info :: string
  exitCode :: int

record verdict = exec_result +
  resultSecret :: string

text \<open>
  \<^verbatim>\<open>resultCache\<close> is a plain object \<^verbatim>\<open>{}\<close>.  Reading \<^verbatim>\<open>resultCache[k]\<close> gives the own property
  \<open>k\<close> when there is one and otherwise the member \<open>k\<close> that every plain object inherits from
  \<^verbatim>\<open>Object.prototype\<close>, when \<open>k\<close> is one of its names; else \<^verbatim>\<open>undefined\<close>.
\<close>

definition Object_prototype :: "string list" where
  "Object_prototype =
     [''constructor'', ''__defineGetter__'', ''__defineSetter__'', ''hasOwnProperty'',
      ''__lookupGetter__'', ''__lookupSetter__'', ''isPrototypeOf'', ''propertyIsEnumerable'',
      ''toString'', ''valueOf'', ''__proto__'', ''toLocaleString'']"

datatype cached = Verdict verdict | Inherited string

definition js_lookup :: "(string \<rightharpoonup> verdict) \<Rightarrow> string \<Rightarrow> cached option" where
  "js_lookup own k =
     (case own k of
        Some v \<Rightarrow> Some (Verdict v)
      | None \<Rightarrow> if k \<in> set Object_prototype then Some (Inherited k) else None)"

text \<open>The properties \<^verbatim>\<open>clean\<close> and \<^verbatim>\<open>info\<close> of a value read from the cache; \<open>None\<close> is
  \<^verbatim>\<open>undefined\<close>, which is what a member of \<^verbatim>\<open>Object.prototype\<close> has there.\<close>

fun clean_of :: "cached \<Rightarrow> bool option" where
  "clean_of (Verdict v) = Some (clean v)"
| "clean_of (Inherited k) = None"

fun info_of :: "cached \<Rightarrow> string option" where
  "info_of (Verdict v) = Some (info v)"
| "info_of (Inherited k) = None"

definition show_clean :: "bool option \<Rightarrow> string" where
  "show_clean c = (case c of None \<Rightarrow> ''undefined'' | Some b \<Rightarrow> show_bool b)"

fun show_nat :: "nat \<Rightarrow> string" where
  "show_nat n =
     (if n < 10 then [''0123456789'' ! n] else show_nat (n div 10) @ [''0123456789'' ! (n mod 10)])"

definition show_int :: "int \<Rightarrow> string" where
  "show_int i = (if i < 0 then ''-'' @ show_nat (nat (- i)) else show_nat (nat i))"

text \<open>What the program does to the outside, in the order it happens.\<close>

datatype event =
    LogInfo string
  | LogError exn
  | HttpGet string
  | DecryptFile string string
  | ExecuteCommand string

record world =
  resultCache :: "string \<rightharpoonup> verdict"
  fs :: filesystem
  trace :: "event list"

definition emit :: "event list \<Rightarrow> world \<Rightarrow> world" where
  "emit es st = st\<lparr>trace := trace st @ es\<rparr>"

text \<open>The requests to the media server and the scanner runs in a trace.\<close>

fun requests :: "event list \<Rightarrow> string list" where
  "requests [] = []"
| "requests (HttpGet u # es) = u # requests es"
| "requests (ev # es) = requests es"

fun decryptions :: "event list \<Rightarrow> (string \<times> string) list" where
  "decryptions [] = []"
| "decryptions (DecryptFile i out # es) = (i, out) # decryptions es"
| "decryptions (ev # es) = decryptions es"

fun scans :: "event list \<Rightarrow> string list" where
  "scans [] = []"
| "scans (ExecuteCommand cmd # es) = cmd # scans es"
| "scans (ev # es) = scans es"

text \<open>
  The collaborators whose code is not part of the program, one choice of them per call:
  the characters \<^verbatim>\<open>mkdtempSync\<close> picks, the answer of the media server to
  \<^verbatim>\<open>rp({url, encoding: null})\<close>, the decryption primitive, and the scan script run by
  \<^verbatim>\<open>executeCommand\<close>, which sees the file system and may change it.
\<close>

record env =
  mkdtemp_random :: string
  rp :: "string \<Rightarrow> exn + buffer"
  decrypt :: "buffer \<Rightarrow> jsval \<Rightarrow> exn + buffer"
  executeCommand :: "string \<Rightarrow> filesystem \<Rightarrow> (exn + exec_result) \<times> filesystem"

text \<open>
  Modelled from the spec: \<^verbatim>\<open>decrypt-file.js\<close> is missing.  \<^verbatim>\<open>decryptFile(in, out, file)\<close> reads
  the input file, decrypts it with the key material of the descriptor and writes the
  plaintext to the output file; it throws when any of that fails.
\<close>

definition decryptFile :: "env \<Rightarrow> string \<Rightarrow> string \<Rightarrow> jsval \<Rightarrow> filesystem \<Rightarrow> exn + filesystem" where
  "decryptFile e inputPath outputPath file fsys =
     (case readFileSync inputPath fsys of
        Inl err \<Rightarrow> Inl err
      | Inr data \<Rightarrow>
          (case decrypt e data file of
             Inl err \<Rightarrow> Inl err
           | Inr plain \<Rightarrow> writeFileSync outputPath plain fsys))"

record opts =
  baseUrl :: "string option"
  tempDirectory :: "string option"
  script :: "string option"

section \<open>reporting.js\<close>

definition clearReportCache :: "world \<Rightarrow> world" where
  "clearReportCache st = st\<lparr>resultCache := Map.empty\<rparr>"

record report =
  report_clean :: "bool option"
  scanned :: bool
  report_info :: "string option"

definition getReport :: "world \<Rightarrow> string \<Rightarrow> report" where
  "getReport st secret =
     (case js_lookup (resultCache st) secret of
        None \<Rightarrow>
          \<lparr>report_clean = Some False, scanned = False,
           report_info = Some ''Secret not recognised, file not scanned.''\<rparr>
      | Some result \<Rightarrow>
          \<lparr>report_clean = clean_of result, scanned = True, report_info = info_of result\<rparr>)"

text \<open>
  \<^verbatim>\<open>url.slice(6)\<close> followed by the string concatenation: a string loses its first six
  characters, an array its first six elements and is then joined; anything else has no
  \<^verbatim>\<open>slice\<close> and the call throws.
\<close>

fun url_slice6 :: "jsval option \<Rightarrow> string option" where
  "url_slice6 (Some (JStr s)) = Some (js_slice 6 None s)"
| "url_slice6 (Some (JArr xs)) = Some (js_toString (JArr (js_slice 6 None xs)))"
| "url_slice6 _ = None"

definition fingerprint :: "jsval \<Rightarrow> string" where
  "fingerprint eventContentFile = base64sha256 (JSON_stringify eventContentFile)"

text \<open>
  \<^verbatim>\<open>generateReport\<close> is an \<^verbatim>\<open>async\<close> function with two \<^verbatim>\<open>await\<close>s.  It runs in three parts:
  up to the request \<^verbatim>\<open>rp(...)\<close>, from the answer of the request up to the call of
  \<^verbatim>\<open>executeCommand\<close>, and from the result of the command to the end.  The local variables
  that are alive at an \<^verbatim>\<open>await\<close> are kept in a record.
\<close>

record locals =
  l_file :: jsval
  l_url :: string
  l_script :: string
  l_httpUrl :: string
  l_resultSecret :: string
  l_tempDir :: string
  l_filePath :: string

datatype started = Returned "exn + cached" | AwaitFetch locals

datatype fetched = Thrown exn | AwaitExec locals string string

text \<open>
  Lines 142 to 168: from the entry to the request.  The \<open>url\<close> of the descriptor is read
  first, then the options are checked.
\<close>

definition generateReport_start :: "env \<Rightarrow> jsval \<Rightarrow> opts \<Rightarrow> world \<Rightarrow> started \<times> world" where
  "generateReport_start e eventContentFile os st =
     (case js_get eventContentFile ''url'' of
        Inl err \<Rightarrow> (Returned (Inl err), st)
      | Inr url \<Rightarrow>
          (case (baseUrl os, tempDirectory os, script os) of
             (Some b, Some t, Some sc) \<Rightarrow>
               (case url_slice6 url of
                  None \<Rightarrow> (Returned (Inl (TypeError ''url.slice'')), st)
                | Some rest \<Rightarrow>
                    (let httpUrl = b @ ''/_matrix/media/v1/download/'' @ rest;
                         secret = fingerprint eventContentFile;
                         url_text = js_toString (the url)
                     in case js_lookup (resultCache st) secret of
                          Some result \<Rightarrow>
                            (Returned (Inr result),
                             emit [LogInfo (''Returning cached result: url = '' @ url_text @
                                            '', clean = '' @ show_clean (clean_of result))] st)
                        | None \<Rightarrow>
                            (case mkdtempSync (t @ ''/'' @ ''av-'') (mkdtemp_random e) (fs st) of
                               Inl err \<Rightarrow> (Returned (Inl err), st)
                             | Inr (tempDir, fs1) \<Rightarrow>
                                 (let filePath = path_join tempDir ''unsafeEncryptedFile''
                                  in (AwaitFetch
                                        \<lparr>l_file = eventContentFile, l_url = url_text,
                                         l_script = sc, l_httpUrl = httpUrl,
                                         l_resultSecret = secret, l_tempDir = tempDir,
                                         l_filePath = filePath\<rparr>,
                                      emit [LogInfo (''Downloading '' @ httpUrl @
                                                     '', writing to '' @ filePath),
                                            HttpGet httpUrl]
                                        (st\<lparr>fs := fs1\<rparr>))))))
           | _ \<Rightarrow>
               (Returned (Inl (Error ''Expected baseUrl, tempDirectory and script in opts'')),
                st)))"

text \<open>Lines 168 to 194: from the answer of the request to the call of the scanner.\<close>

definition generateReport_fetched ::
    "env \<Rightarrow> locals \<Rightarrow> exn + buffer \<Rightarrow> world \<Rightarrow> fetched \<times> world" where
  "generateReport_fetched e l answer st =
     (case answer of
        Inl err \<Rightarrow>
          (Thrown (ClientError 502 ''Failed to get requested URL''), emit [LogError err] st)
      | Inr data \<Rightarrow>
          (case writeFileSync (l_filePath l) data (fs st) of
             Inl err \<Rightarrow> (Thrown err, st)
           | Inr fs1 \<Rightarrow>
               (case js_get (l_file l) ''key'' of
                  Inl err \<Rightarrow> (Thrown err, st\<lparr>fs := fs1\<rparr>)
                | Inr key \<Rightarrow>
                    (if truthy key then
                       (let decryptedFilePath = path_join (l_tempDir l) ''unsafeFile'';
                            st1 = emit [LogInfo (''Decrypting '' @ l_filePath l @
                                                 '', writing to '' @ decryptedFilePath),
                                        DecryptFile (l_filePath l) decryptedFilePath]
                                    (st\<lparr>fs := fs1\<rparr>)
                        in case decryptFile e (l_filePath l) decryptedFilePath (l_file l) fs1 of
                             Inl err \<Rightarrow>
                               (Thrown (ClientError 400 ''Failed to decrypt file''),
                                emit [LogError err] st1)
                           | Inr fs2 \<Rightarrow>
                               (let cmd = l_script l @ '' '' @ decryptedFilePath
                                in (AwaitExec l decryptedFilePath cmd,
                                    emit [LogInfo (''Running command '' @ cmd),
                                          ExecuteCommand cmd]
                                      (st1\<lparr>fs := fs2\<rparr>))))
                     else
                       (let decryptedFilePath = l_filePath l;
                            cmd = l_script l @ '' '' @ decryptedFilePath
                        in (AwaitExec l decryptedFilePath cmd,
                            emit [LogInfo (''Running command '' @ cmd), ExecuteCommand cmd]
                              (st\<lparr>fs := fs1\<rparr>)))))))"

text \<open>Lines 194 to 208: from the result of the scanner to the end.\<close>

definition generateReport_scanned ::
    "locals \<Rightarrow> string \<Rightarrow> exn + exec_result \<Rightarrow> world \<Rightarrow> (exn + cached) \<times> world" where
  "generateReport_scanned l decryptedFilePath outcome st =
     (case outcome of
        Inl err \<Rightarrow> (Inl err, st)
      | Inr r \<Rightarrow>
          (let result = \<lparr>clean = clean r, info = info r, exitCode = exitCode r,
                         resultSecret = l_resultSecret l\<rparr>;
               st1 = emit [LogInfo (''Result: url = '' @ [CHR 0x22] @ l_url l @ [CHR 0x22] @
                                    '', clean = '' @ show_bool (clean r) @
                                    '', exit code = '' @ show_int (exitCode r))] st;
               st2 = st1\<lparr>resultCache := (resultCache st1)(l_resultSecret l \<mapsto> result)\<rparr>
           in case unlinkSync (l_filePath l) (fs st2) of
                Inl err \<Rightarrow> (Inl err, st2)
              | Inr fs1 \<Rightarrow>
                  (case (if l_filePath l \<noteq> decryptedFilePath
                         then unlinkSync decryptedFilePath fs1 else Inr fs1) of
                     Inl err \<Rightarrow> (Inl err, st2\<lparr>fs := fs1\<rparr>)
                   | Inr fs2 \<Rightarrow>
                       (case rmdirSync (l_tempDir l) fs2 of
                          Inl err \<Rightarrow> (Inl err, st2\<lparr>fs := fs2\<rparr>)
                        | Inr fs3 \<Rightarrow> (Inr (Verdict result), st2\<lparr>fs := fs3\<rparr>)))))"

text \<open>
  One call of \<^verbatim>\<open>generateReport\<close> that is awaited to its end while nothing else runs: the
  three parts in sequence, with the answers of the collaborators in between.
\<close>

definition generateReport :: "env \<Rightarrow> jsval \<Rightarrow> opts \<Rightarrow> world \<Rightarrow> (exn + cached) \<times> world" where
  "generateReport e eventContentFile os st =
     (case generateReport_start e eventContentFile os st of
        (Returned r, st1) \<Rightarrow> (r, st1)
      | (AwaitFetch l, st1) \<Rightarrow>
          (case generateReport_fetched e l (rp e (l_httpUrl l)) st1 of
             (Thrown err, st2) \<Rightarrow> (Inl err, st2)
           | (AwaitExec l' decryptedFilePath cmd, st2) \<Rightarrow>
               (case executeCommand e cmd (fs st2) of
                  (outcome, fs') \<Rightarrow>
                    generateReport_scanned l' decryptedFilePath outcome (st2\<lparr>fs := fs'\<rparr>))))"

section \<open>handlers.js\<close>

record response =
  status :: nat
  body :: report

text \<open>The text that \<^verbatim>\<open>scanReportHandler\<close> writes in place of the secret.\<close>

definition redactedSecret :: "string \<Rightarrow> string" where
  "redactedSecret secret = js_slice 0 (Some 4) secret @ ''...'' @ js_slice (- 4) None secret"

definition scanReportHandler :: "string \<Rightarrow> world \<Rightarrow> response \<times> world" where
  "scanReportHandler secret st =
     (let r = getReport st secret
      in (\<lparr>status = 200, body = r\<rparr>,
          emit [LogInfo (''Returning scan report: secret = '' @ redactedSecret secret @
                         '' , scanned = '' @ show_bool (scanned r) @
                         '', clean = '' @ show_clean (report_clean r))] st))"

section \<open>Calls that run at the same time\<close>

text \<open>
  The event loop runs one part of one call at a time; a call gives way only at an
  \<^verbatim>\<open>await\<close>.  A call is at its start, waits for the answer to its request, waits for the
  scanner, or has finished.
\<close>

datatype call =
    Start jsval opts
  | Fetching locals
  | Scanning locals string string
  | Finished "exn + cached"

text \<open>The next part of a call, with the collaborators' answers for that part in \<open>e\<close>.\<close>

definition step :: "env \<Rightarrow> call \<Rightarrow> world \<Rightarrow> call \<times> world" where
  "step e t st =
     (case t of
        Start d os \<Rightarrow>
          (case generateReport_start e d os st of
             (Returned r, st1) \<Rightarrow> (Finished r, st1)
           | (AwaitFetch l, st1) \<Rightarrow> (Fetching l, st1))
      | Fetching l \<Rightarrow>
          (case generateReport_fetched e l (rp e (l_httpUrl l)) st of
             (Thrown err, st1) \<Rightarrow> (Finished (Inl err), st1)
           | (AwaitExec l' decryptedFilePath cmd, st1) \<Rightarrow> (Scanning l' decryptedFilePath cmd, st1))
      | Scanning l decryptedFilePath cmd \<Rightarrow>
          (case executeCommand e cmd (fs st) of
             (outcome, fs') \<Rightarrow>
               (case generateReport_scanned l decryptedFilePath outcome (st\<lparr>fs := fs'\<rparr>) of
                  (r, st1) \<Rightarrow> (Finished r, st1)))
      | Finished r \<Rightarrow> (Finished r, st))"

text \<open>A schedule says which call runs its next part, and with which answers.\<close>

fun run :: "(nat \<times> env) list \<Rightarrow> call list \<Rightarrow> world \<Rightarrow> call list \<times> world" where
  "run [] ts st = (ts, st)"
| "run ((i, e) # sch) ts st =
     (if i < length ts
      then (case step e (ts ! i) st of (t, st1) \<Rightarrow> run sch (ts[i := t]) st1)
      else run sch ts st)"

text \<open>The scanner runs that a call still has before it: one, while it waits for its download.\<close>

fun owed :: "call \<Rightarrow> nat" where
  "owed (Fetching l) = 1"
| "owed t = 0"

fun in_flight :: "call \<Rightarrow> bool" where
  "in_flight (Start d os) = False"
| "in_flight t = True"

fun succeeded :: "call \<Rightarrow> bool" where
  "succeeded (Finished (Inr r)) = True"
| "succeeded t = False"

section \<open>Example inputs\<close>

definition file_a :: jsval where
  "file_a = JObj [(''url'', JStr ''mxc://hs/abc''), (''mimetype'', JStr ''image/png'')]"

definition file_b :: jsval where
  "file_b = JObj [(''mimetype'', JStr ''image/png''), (''url'', JStr ''mxc://hs/abc'')]"

definition config0 :: opts where
  "config0 = \<lparr>baseUrl = Some ''https://hs'', tempDirectory = Some ''/tmp'',
              script = Some ''/usr/local/bin/scan''\<rparr>"

text \<open>A media server that answers, a key that fits, and a scanner that finds nothing.\<close>

definition scan_ok :: env where
  "scan_ok =
     \<lparr>mkdtemp_random = ''Ab3dE9'',
      rp = (\<lambda>u. Inr [37, 80, 68, 70]),
      decrypt = (\<lambda>data file. Inr data),
      executeCommand =
        (\<lambda>cmd fsys. (Inr \<lparr>clean = True, info = ''File clean'', exitCode = 0\<rparr>, fsys))\<rparr>"

text \<open>The same, but the media server does not answer.\<close>

definition server_down :: env where
  "server_down = scan_ok\<lparr>mkdtemp_random := ''Zz91xQ'', rp := (\<lambda>u. Inl (Rejected ''ETIMEDOUT''))\<rparr>"

text \<open>The state at the start of the process: an empty cache, and \<open>/tmp\<close> on the disk.\<close>

definition world0 :: world where
  "world0 = \<lparr>resultCache = Map.empty, fs = \<lparr>dirs = [[[]], [[], ''tmp'']], files = []\<rparr>,
             trace = []\<rparr>"

text \<open>The verdict of the first scan of \<open>file_a\<close>, and the state it leaves behind.\<close>

definition verdict_a :: verdict where
  "verdict_a = \<lparr>clean = True, info = ''File clean'', exitCode = 0,
                 resultSecret = fingerprint file_a\<rparr>"

definition world_a :: world where
  "world_a =
     \<lparr>resultCache = [fingerprint file_a \<mapsto> verdict_a],
      fs = \<lparr>dirs = [[[]], [[], ''tmp'']], files = []\<rparr>,
      trace =
        [LogInfo (''Downloading https://hs/_matrix/media/v1/download/hs/abc, '' @
                  ''writing to /tmp/av-Ab3dE9/unsafeEncryptedFile''),
         HttpGet ''https://hs/_matrix/media/v1/download/hs/abc'',
         LogInfo ''Running command /usr/local/bin/scan /tmp/av-Ab3dE9/unsafeEncryptedFile'',
         ExecuteCommand ''/usr/local/bin/scan /tmp/av-Ab3dE9/unsafeEncryptedFile'',
         LogInfo (''Result: url = '' @ [CHR 0x22] @ ''mxc://hs/abc'' @ [CHR 0x22] @
                  '', clean = true, exit code = 0'')]\<rparr>"

text \<open>The state after a call for \<open>file_a\<close> while the media server is down.\<close>

definition world_f :: world where
  "world_f =
     \<lparr>resultCache = Map.empty,
      fs = \<lparr>dirs = [[[], ''tmp'', ''av-Zz91xQ''], [[]], [[], ''tmp'']], files = []\<rparr>,
      trace =
        [LogInfo (''Downloading https://hs/_matrix/media/v1/download/hs/abc, '' @
                  ''writing to /tmp/av-Zz91xQ/unsafeEncryptedFile''),
         HttpGet ''https://hs/_matrix/media/v1/download/hs/abc'',
         LogError (Rejected ''ETIMEDOUT'')]\<rparr>"

text \<open>The state after a second, successful call for \<open>file_a\<close> from there.\<close>

definition world_g :: world where
  "world_g =
     \<lparr>resultCache = [fingerprint file_a \<mapsto> verdict_a],
      fs = fs world_f,
      trace = trace world_f @ trace world_a\<rparr>"

text \<open>An encrypted attachment, and a key that does not fit it.\<close>

definition file_k :: jsval where
  "file_k =
     JObj [(''v'', JStr ''v2''),
           (''key'', JObj [(''alg'', JStr ''A256CTR''), (''ext'', JBool True),
                           (''k'', JStr ''c2VjcmV0''), (''key_ops'', JArr [JStr ''decrypt'']),
                           (''kty'', JStr ''oct'')]),
           (''iv'', JStr ''aXY''),
           (''hashes'', JObj [(''sha256'', JStr ''aGFzaA'')]),
           (''url'', JStr ''mxc://hs/enc'')]"

definition wrong_key :: env where
  "wrong_key =
     scan_ok\<lparr>mkdtemp_random := ''k3Y0oo'',
             decrypt := (\<lambda>data file. Inl (Error ''Unexpected sha256 hash''))\<rparr>"

definition world_k :: world where
  "world_k =
     \<lparr>resultCache = Map.empty,
      fs = \<lparr>dirs = [[[], ''tmp'', ''av-k3Y0oo''], [[]], [[], ''tmp'']],
            files = [([[], ''tmp'', ''av-k3Y0oo'', ''unsafeEncryptedFile''], [37, 80, 68, 70])]\<rparr>,
      trace =
        [LogInfo (''Downloading https://hs/_matrix/media/v1/download/hs/enc, '' @
                  ''writing to /tmp/av-k3Y0oo/unsafeEncryptedFile''),
         HttpGet ''https://hs/_matrix/media/v1/download/hs/enc'',
         LogInfo (''Decrypting /tmp/av-k3Y0oo/unsafeEncryptedFile, '' @
                  ''writing to /tmp/av-k3Y0oo/unsafeFile''),
         DecryptFile ''/tmp/av-k3Y0oo/unsafeEncryptedFile'' ''/tmp/av-k3Y0oo/unsafeFile'',
         LogError (Error ''Unexpected sha256 hash'')]\<rparr>"

text \<open>
  Follows the spec's words: two descriptors that have the same fields in a different
  field ordering.
\<close>

fun reordered :: "jsval \<Rightarrow> jsval \<Rightarrow> bool" where
  "reordered (JObj kvs) (JObj kvs') = (mset kvs = mset kvs')"
| "reordered a b = (a = b)"

text \<open>A second call gets other characters from \<^verbatim>\<open>mkdtempSync\<close>.\<close>

definition scan_ok2 :: env where
  "scan_ok2 = scan_ok\<lparr>mkdtemp_random := ''Qw7rT2''\<rparr>"

text \<open>Two calls take turns, part by part.\<close>

definition taking_turns :: "(nat \<times> env) list" where
  "taking_turns =
     [(0, scan_ok), (1, scan_ok2), (0, scan_ok), (1, scan_ok2), (0, scan_ok), (1, scan_ok2)]"

text \<open>The local variables of the two calls while they wait, and the states in between.\<close>

definition locals_1 :: locals where
  "locals_1 =
     \<lparr>l_file = file_a, l_url = ''mxc://hs/abc'', l_script = ''/usr/local/bin/scan'',
      l_httpUrl = ''https://hs/_matrix/media/v1/download/hs/abc'',
      l_resultSecret = fingerprint file_a, l_tempDir = ''/tmp/av-Ab3dE9'',
      l_filePath = ''/tmp/av-Ab3dE9/unsafeEncryptedFile''\<rparr>"

definition locals_2 :: locals where
  "locals_2 =
     locals_1\<lparr>l_tempDir := ''/tmp/av-Qw7rT2'',
              l_filePath := ''/tmp/av-Qw7rT2/unsafeEncryptedFile''\<rparr>"

definition world_1 :: world where
  "world_1 = snd (step scan_ok (Start file_a config0) world0)"

definition world_2 :: world where
  "world_2 = snd (step scan_ok2 (Start file_a config0) world_1)"

section \<open>Evaluating the hash\<close>

lemma schedule_numeral:
  "schedule (numeral k) ws =
     schedule (pred_numeral k)
       (add32 (add32 (add32 (sigma1 (ws ! 1)) (ws ! 6)) (sigma0 (ws ! 14))) (ws ! 15) # ws)"
  by (simp add: numeral_eq_Suc [of k])

lemma blocks_numeral:
  "blocks (numeral k) ws = take 16 ws # blocks (pred_numeral k) (drop 16 ws)"
  by (simp add: numeral_eq_Suc [of k])

lemma be_bytes_numeral:
  "be_bytes (numeral k) x = be_bytes (pred_numeral k) (x div 256) @ [x mod 256]"
  by (simp add: numeral_eq_Suc [of k])

lemma replicate_numeral_Cons:
  "replicate (numeral k) x = x # replicate (pred_numeral k) x"
  by (simp add: numeral_eq_Suc [of k])

lemmas sha256_eval =
  base64sha256_def utf8_def utf8_char_def sha256_def digest_def pad256_def compress_def
  K256_def H0_def add32_def rotr_def shr_def not32_def Ch_def Maj_def
  Sigma0_def Sigma1_def sigma0_def sigma1_def b64_def
  schedule_numeral blocks_numeral be_bytes_numeral replicate_numeral_Cons

text \<open>The test vector of FIPS 180-4 for the message \<open>abc\<close>.\<close>

lemma base64sha256_abc:
  "base64sha256 ''abc'' = ''ungWv48Bz+pBQUDeXa4iI7ADYaOWF3qctBD/YfIAFa0=''"
  by (simp add: sha256_eval)

section \<open>The fingerprint is never a name of Object.prototype\<close>

lemma length_be_bytes: "length (be_bytes n x) = n"
  by (induction n arbitrary: x) simp_all

lemma length_state_bytes: "length (state_bytes s) = 32"
proof -
  obtain a b c d e f g h where "s = (a, b, c, d, e, f, g, h)"
    by (metis prod_cases3)
  then show ?thesis by (simp add: length_be_bytes)
qed

lemma length_base64: "length (base64 xs) = 4 * ((length xs + 2) div 3)"
proof (induction xs rule: base64.induct)
  case (1 a b c rest)
  have "(5 + length rest) div 3 = Suc ((length rest + 2) div 3)"
    by presburger
  with 1 show ?case by simp
qed simp_all

lemma length_base64sha256: "length (base64sha256 s) = 44"
  by (simp add: base64sha256_def sha256_def digest_def length_base64 length_state_bytes)

lemma Object_prototype_length: "k \<in> set Object_prototype \<Longrightarrow> length k \<noteq> 44"
  by (auto simp: Object_prototype_def)

lemma fingerprint_not_inherited: "fingerprint d \<notin> set Object_prototype"
  using Object_prototype_length [of "fingerprint d"]
  by (auto simp: fingerprint_def length_base64sha256)

lemma js_lookup_fingerprint:
  "js_lookup own (fingerprint d) = map_option Verdict (own (fingerprint d))"
  by (simp add: js_lookup_def fingerprint_not_inherited split: option.splits)

section \<open>The three parts of generateReport\<close>

lemma resultCache_emit [simp]: "resultCache (emit es st) = resultCache st"
  by (simp add: emit_def)

lemma fs_emit [simp]: "fs (emit es st) = fs st"
  by (simp add: emit_def)

lemma trace_emit [simp]: "trace (emit es st) = trace st @ es"
  by (simp add: emit_def)


lemma url_slice6_Some: "url_slice6 x = Some y \<Longrightarrow> \<exists>u. x = Some u"
  by (cases x) simp_all

lemma start_Returned_Inr:
  assumes "generateReport_start e d os st = (Returned (Inr r), st1)"
  shows "js_lookup (resultCache st) (fingerprint d) = Some r"
    and "baseUrl os \<noteq> None \<and> tempDirectory os \<noteq> None \<and> script os \<noteq> None"
    and "\<exists>u. js_get d ''url'' = Inr (Some u) \<and> url_slice6 (Some u) \<noteq> None"
    and "resultCache st1 = resultCache st"
proof -
  obtain url where url: "js_get d ''url'' = Inr url"
    using assms by (cases "js_get d ''url''") (simp_all add: generateReport_start_def)
  obtain u where u: "url = Some u"
    using assms url
    by (cases url) (auto simp: generateReport_start_def split: option.splits)
  from assms url u show "js_lookup (resultCache st) (fingerprint d) = Some r"
    and "baseUrl os \<noteq> None \<and> tempDirectory os \<noteq> None \<and> script os \<noteq> None"
    and "\<exists>u. js_get d ''url'' = Inr (Some u) \<and> url_slice6 (Some u) \<noteq> None"
    and "resultCache st1 = resultCache st"
    by (auto simp: generateReport_start_def Let_def
             split: option.splits sum.splits prod.splits)
qed

lemma start_AwaitFetch:
  assumes "generateReport_start e d os st = (AwaitFetch l, st1)"
  shows "js_lookup (resultCache st) (fingerprint d) = None"
    and "baseUrl os \<noteq> None \<and> tempDirectory os \<noteq> None \<and> script os \<noteq> None"
    and "\<exists>u. js_get d ''url'' = Inr (Some u) \<and> url_slice6 (Some u) \<noteq> None"
    and "resultCache st1 = resultCache st"
    and "l_resultSecret l = fingerprint d"
proof -
  obtain url where url: "js_get d ''url'' = Inr url"
    using assms by (cases "js_get d ''url''") (simp_all add: generateReport_start_def)
  obtain u where u: "url = Some u"
    using assms url
    by (cases url) (auto simp: generateReport_start_def split: option.splits)
  from assms url u show "js_lookup (resultCache st) (fingerprint d) = None"
    and "baseUrl os \<noteq> None \<and> tempDirectory os \<noteq> None \<and> script os \<noteq> None"
    and "\<exists>u. js_get d ''url'' = Inr (Some u) \<and> url_slice6 (Some u) \<noteq> None"
    and "resultCache st1 = resultCache st"
    and "l_resultSecret l = fingerprint d"
    by (auto simp: generateReport_start_def Let_def
             split: option.splits sum.splits prod.splits)
qed


lemma fetched_AwaitExec:
  assumes "generateReport_fetched e l answer st = (AwaitExec l' p cmd, st1)"
  shows "l' = l"
  using assms
  by (auto simp: generateReport_fetched_def Let_def split: sum.splits if_splits)

lemma scanned_Inr:
  assumes "generateReport_scanned l p outcome st = (Inr r, st1)"
  shows "\<exists>v. r = Verdict v \<and> resultCache st1 (l_resultSecret l) = Some v"
  using assms
  by (auto simp: generateReport_scanned_def Let_def split: sum.splits if_splits)

lemma generateReport_Inr:
  assumes "generateReport e d os st = (Inr r, st')"
  shows "js_lookup (resultCache st') (fingerprint d) = Some r"
    and "baseUrl os \<noteq> None \<and> tempDirectory os \<noteq> None \<and> script os \<noteq> None"
    and "\<exists>u. js_get d ''url'' = Inr (Some u) \<and> url_slice6 (Some u) \<noteq> None"
proof -
  obtain s1 st1 where start: "generateReport_start e d os st = (s1, st1)"
    by (cases "generateReport_start e d os st")
  have "js_lookup (resultCache st') (fingerprint d) = Some r \<and>
        (baseUrl os \<noteq> None \<and> tempDirectory os \<noteq> None \<and> script os \<noteq> None) \<and>
        (\<exists>u. js_get d ''url'' = Inr (Some u) \<and> url_slice6 (Some u) \<noteq> None)"
  proof (cases s1)
    case (Returned x)
    with assms start have "x = Inr r" and "st1 = st'"
      by (simp_all add: generateReport_def)
    with start Returned show ?thesis
      using start_Returned_Inr [of e d os st r st'] by simp
  next
    case (AwaitFetch l)
    note facts = start_AwaitFetch [OF start [unfolded AwaitFetch]]
    obtain f2 st2 where fetched:
      "generateReport_fetched e l (rp e (l_httpUrl l)) st1 = (f2, st2)"
      by (cases "generateReport_fetched e l (rp e (l_httpUrl l)) st1")
    show ?thesis
    proof (cases f2)
      case (Thrown err)
      with assms start AwaitFetch fetched show ?thesis
        by (simp add: generateReport_def)
    next
      case (AwaitExec l' p cmd)
      have l': "l' = l"
        using fetched_AwaitExec [OF fetched [unfolded AwaitExec]] .
      obtain outcome fs' where exec: "executeCommand e cmd (fs st2) = (outcome, fs')"
        by (cases "executeCommand e cmd (fs st2)")
      from assms start AwaitFetch fetched AwaitExec exec l'
      have "generateReport_scanned l p outcome (st2\<lparr>fs := fs'\<rparr>) = (Inr r, st')"
        by (simp add: generateReport_def)
      from scanned_Inr [OF this] facts show ?thesis
        by (auto simp: js_lookup_fingerprint)
    qed
  qed
  then show "js_lookup (resultCache st') (fingerprint d) = Some r"
    and "baseUrl os \<noteq> None \<and> tempDirectory os \<noteq> None \<and> script os \<noteq> None"
    and "\<exists>u. js_get d ''url'' = Inr (Some u) \<and> url_slice6 (Some u) \<noteq> None"
    by simp_all
qed

lemma start_cache_hit:
  assumes "js_lookup (resultCache st) (fingerprint d) = Some r"
    and "baseUrl os \<noteq> None \<and> tempDirectory os \<noteq> None \<and> script os \<noteq> None"
    and "js_get d ''url'' = Inr (Some u)" and "url_slice6 (Some u) \<noteq> None"
  shows "generateReport_start e d os st =
           (Returned (Inr r),
            emit [LogInfo (''Returning cached result: url = '' @ js_toString u @
                           '', clean = '' @ show_clean (clean_of r))] st)"
  using assms by (auto simp: generateReport_start_def Let_def)

lemma start_null:
  "generateReport_start e JNull os st = (Returned (Inl (TypeError ''null.url'')), st)"
  by (simp add: generateReport_start_def)

lemma start_missing_config:
  assumes "baseUrl os = None \<or> tempDirectory os = None \<or> script os = None"
    and "d \<noteq> JNull"
  shows "generateReport_start e d os st =
           (Returned (Inl (Error ''Expected baseUrl, tempDirectory and script in opts'')), st)"
proof -
  from assms(2) obtain url where "js_get d ''url'' = Inr url"
    by (cases d) simp_all
  with assms(1) show ?thesis
    by (auto simp: generateReport_start_def Let_def split: option.splits)
qed

section \<open>A first run on the example inputs\<close>

lemmas fs_eval =
  mkdtempSync_def writeFileSync_def readFileSync_def unlinkSync_def rmdirSync_def
  fs_key_def split_path.simps parent_def is_dir_def is_file_def is_absolute_def path_join_def path_normalize_def

lemmas run_eval =
  generateReport_def generateReport_start_def generateReport_fetched_def
  generateReport_scanned_def decryptFile_def emit_def js_lookup_fingerprint
  js_slice_def js_index_def show_bool_def show_int_def show_clean_def Let_def

lemma file_a_url: "js_get file_a ''url'' = Inr (Some (JStr ''mxc://hs/abc''))"
  by (simp add: file_a_def)

lemma file_a_key: "js_get file_a ''key'' = Inr None"
  by (simp add: file_a_def)

lemma first_run: "generateReport scan_ok file_a config0 world0 = (Inr (Verdict verdict_a), world_a)"
  by (simp add: run_eval fs_eval scan_ok_def file_a_url file_a_key config0_def world0_def
      verdict_a_def world_a_def)

section \<open>Slices and the retrieval of a report\<close>

lemma getReport_unknown:
  assumes "resultCache st secret = None" and "secret \<notin> set Object_prototype"
  shows "getReport st secret =
           \<lparr>report_clean = Some False, scanned = False,
            report_info = Some ''Secret not recognised, file not scanned.''\<rparr>"
  using assms by (simp add: getReport_def js_lookup_def)

lemma js_slice_first4: "js_slice 0 (Some 4) s = take 4 s"
  by (simp add: js_slice_def js_index_def min_def)

lemma js_slice_last4: "js_slice (- 4) None s = drop (length s - 4) s"
  by (auto simp: js_slice_def js_index_def max_def nat_diff_distrib)

lemma js_slice_from6: "js_slice 6 None s = drop 6 s"
  by (simp add: js_slice_def js_index_def min_def)

lemma redactedSecret_eq: "redactedSecret s = take 4 s @ ''...'' @ drop (length s - 4) s"
  by (simp add: redactedSecret_def js_slice_first4 js_slice_last4)

section \<open>What each part adds to the trace, and which errors it can throw\<close>

lemma requests_append [simp]: "requests (xs @ ys) = requests xs @ requests ys"
  by (induction xs rule: requests.induct) simp_all

lemma scans_append [simp]: "scans (xs @ ys) = scans xs @ scans ys"
  by (induction xs rule: scans.induct) simp_all

lemma decryptions_append [simp]: "decryptions (xs @ ys) = decryptions xs @ decryptions ys"
  by (induction xs rule: decryptions.induct) simp_all







lemma fetched_trace:
  assumes "generateReport_fetched e l answer st = (out, st1)"
  shows "requests (trace st1) = requests (trace st)"
    and "scans (trace st1) =
           scans (trace st) @ (case out of Thrown err \<Rightarrow> [] | AwaitExec l' p cmd \<Rightarrow> [cmd])"
  using assms
  by (auto simp: generateReport_fetched_def Let_def split: sum.splits if_splits)

lemma scanned_trace:
  assumes "generateReport_scanned l p outcome st = (out, st1)"
  shows "requests (trace st1) = requests (trace st)"
    and "scans (trace st1) = scans (trace st)"
  using assms
  by (auto simp: generateReport_scanned_def Let_def split: sum.splits if_splits)



section \<open>A whole call of generateReport\<close>

lemma generateReport_cases [consumes 1, case_names Returned Thrown Scanned]:
  assumes "generateReport e d os st = (out, st')"
  obtains
    (Returned) "generateReport_start e d os st = (Returned out, st')"
  | (Thrown) l st1 err where
      "generateReport_start e d os st = (AwaitFetch l, st1)"
      "generateReport_fetched e l (rp e (l_httpUrl l)) st1 = (Thrown err, st')"
      "out = Inl err"
  | (Scanned) l st1 p cmd st2 outcome fs' where
      "generateReport_start e d os st = (AwaitFetch l, st1)"
      "generateReport_fetched e l (rp e (l_httpUrl l)) st1 = (AwaitExec l p cmd, st2)"
      "executeCommand e cmd (fs st2) = (outcome, fs')"
      "generateReport_scanned l p outcome (st2\<lparr>fs := fs'\<rparr>) = (out, st')"
proof -
  obtain s1 st1 where start: "generateReport_start e d os st = (s1, st1)"
    by (cases "generateReport_start e d os st")
  show thesis
  proof (cases s1)
    case (Returned x)
    with assms start show thesis
      by (intro that(1)) (simp add: generateReport_def)
  next
    case (AwaitFetch l)
    obtain f2 st2 where fetched:
      "generateReport_fetched e l (rp e (l_httpUrl l)) st1 = (f2, st2)"
      by (cases "generateReport_fetched e l (rp e (l_httpUrl l)) st1")
    show thesis
    proof (cases f2)
      case (Thrown err)
      with assms start AwaitFetch fetched show thesis
        by (intro that(2) [of l st1 err]) (simp_all add: generateReport_def)
    next
      case (AwaitExec l' p cmd)
      have l': "l' = l"
        using fetched_AwaitExec [OF fetched [unfolded AwaitExec]] .
      obtain outcome fs' where exec: "executeCommand e cmd (fs st2) = (outcome, fs')"
        by (cases "executeCommand e cmd (fs st2)")
      from assms start AwaitFetch fetched AwaitExec exec l' show thesis
        by (intro that(3) [of l st1 p cmd st2 outcome fs']) (simp_all add: generateReport_def)
    qed
  qed
qed




section \<open>Failing runs on the example inputs\<close>

lemma file_k_url: "js_get file_k ''url'' = Inr (Some (JStr ''mxc://hs/enc''))"
  by (simp add: file_k_def)

lemma file_k_key:
  "js_get file_k ''key'' =
     Inr (Some (JObj [(''alg'', JStr ''A256CTR''), (''ext'', JBool True),
                      (''k'', JStr ''c2VjcmV0''), (''key_ops'', JArr [JStr ''decrypt'']),
                      (''kty'', JStr ''oct'')]))"
  by (simp add: file_k_def)

lemma failed_run:
  "generateReport server_down file_a config0 world0 =
     (Inl (ClientError 502 ''Failed to get requested URL''), world_f)"
  by (simp add: run_eval fs_eval server_down_def scan_ok_def file_a_url file_a_key config0_def
      world0_def world_f_def)

lemma retry_run:
  "generateReport scan_ok file_a config0 world_f = (Inr (Verdict verdict_a), world_g)"
  by (simp add: run_eval fs_eval scan_ok_def file_a_url file_a_key config0_def
      world_f_def world_g_def world_a_def verdict_a_def)

lemma undecryptable_run:
  "generateReport wrong_key file_k config0 world0 =
     (Inl (ClientError 400 ''Failed to decrypt file''), world_k)"
  by (simp add: run_eval fs_eval wrong_key_def scan_ok_def file_k_url file_k_key config0_def
      world0_def world_k_def)

section \<open>The fingerprints of the example descriptors\<close>

lemma json_file_a:
  "JSON_stringify file_a =
     ''{'' @ [CHR 0x22] @ ''url'' @ [CHR 0x22] @ '':'' @ [CHR 0x22] @ ''mxc://hs/abc'' @ [CHR 0x22] @
     '','' @ [CHR 0x22] @ ''mimetype'' @ [CHR 0x22] @ '':'' @ [CHR 0x22] @ ''image/png'' @ [CHR 0x22] @ ''}''"
  by (simp add: file_a_def json_quote_def json_escape_def)

lemma json_file_b:
  "JSON_stringify file_b =
     ''{'' @ [CHR 0x22] @ ''mimetype'' @ [CHR 0x22] @ '':'' @ [CHR 0x22] @ ''image/png'' @ [CHR 0x22] @
     '','' @ [CHR 0x22] @ ''url'' @ [CHR 0x22] @ '':'' @ [CHR 0x22] @ ''mxc://hs/abc'' @ [CHR 0x22] @ ''}''"
  by (simp add: file_b_def json_quote_def json_escape_def)

lemma fingerprint_file_a: "fingerprint file_a = ''fd8XO89z7NBQxkL7maY/X7TWlml9HYprkQerdj1IQiQ=''"
  by (simp add: sha256_eval fingerprint_def json_file_a)

lemma fingerprint_file_b: "fingerprint file_b = ''KlFcbPUZMnHrRWBb5v2RFEpLoyEv47hQ5R4FH279YT0=''"
  by (simp add: sha256_eval fingerprint_def json_file_b)

section \<open>The secret in a verdict, and a call as a schedule\<close>

lemma scanned_Inr_secret:
  assumes "generateReport_scanned l p outcome st = (Inr (Verdict v), st1)"
  shows "resultSecret v = l_resultSecret l"
  using assms
  by (auto simp: generateReport_scanned_def Let_def split: sum.splits if_splits)

lemma generateReport_Inr_secret:
  assumes "generateReport e d os st = (Inr (Verdict v), st')"
    and "resultCache st (fingerprint d) = None"
  shows "resultSecret v = fingerprint d"
  using assms(1)
proof (cases rule: generateReport_cases)
  case Returned
  from start_Returned_Inr(1) [OF this] assms(2) show ?thesis
    by (simp add: js_lookup_fingerprint)
next
  case (Thrown l st1 err)
  then show ?thesis by simp
next
  case (Scanned l st1 p cmd st2 outcome fs')
  from start_AwaitFetch(5) [OF Scanned(1)] scanned_Inr_secret [OF Scanned(4)]
  show ?thesis by simp
qed

lemma run_sequential:
  "run [(0, e), (0, e), (0, e)] [Start d os] st =
     (case generateReport e d os st of (r, st') \<Rightarrow> ([Finished r], st'))"
  by (auto simp: step_def generateReport_def
           split: prod.splits started.splits fetched.splits dest: fetched_AwaitExec)

section \<open>Schedules\<close>

lemmas step_eval =
  step_def generateReport_start_def generateReport_fetched_def
  generateReport_scanned_def decryptFile_def emit_def js_lookup_fingerprint
  js_slice_def js_index_def show_bool_def show_int_def show_clean_def Let_def

lemma run_taking_turns:
  "fst (run taking_turns [Start file_a config0, Start file_a config0] world0) =
     [Finished (Inr (Verdict verdict_a)), Finished (Inr (Verdict verdict_a))] \<and>
   requests (trace (snd (run taking_turns [Start file_a config0, Start file_a config0] world0))) =
     [''https://hs/_matrix/media/v1/download/hs/abc'',
      ''https://hs/_matrix/media/v1/download/hs/abc''] \<and>
   scans (trace (snd (run taking_turns [Start file_a config0, Start file_a config0] world0))) =
     [''/usr/local/bin/scan /tmp/av-Ab3dE9/unsafeEncryptedFile'',
      ''/usr/local/bin/scan /tmp/av-Qw7rT2/unsafeEncryptedFile'']"
  by (simp add: taking_turns_def step_eval fs_eval scan_ok2_def scan_ok_def file_a_url file_a_key
      config0_def world0_def verdict_a_def)

lemma step_Finished [simp]: "step e (Finished r) st = (Finished r, st)"
  by (simp add: step_def)

lemma step_Start:
  assumes "step e (Start d os) st = (t, st1)"
  shows "scans (trace st1) = scans (trace st)"
    and "resultCache st1 = resultCache st"
    and "succeeded t \<Longrightarrow> js_lookup (resultCache st) (fingerprint d) \<noteq> None"
    and "t = Fetching l \<Longrightarrow>
           js_lookup (resultCache st) (fingerprint d) = None \<and>
           requests (trace st1) = requests (trace st) @ [l_httpUrl l] \<and>
           (baseUrl os = Some b \<longrightarrow> js_get d ''url'' = Inr (Some (JStr s)) \<longrightarrow>
              l_httpUrl l = b @ ''/_matrix/media/v1/download/'' @ drop 6 s)"
  using assms
  by (auto simp: step_def generateReport_start_def Let_def js_slice_from6
           split: option.splits sum.splits prod.splits)

lemma step_Fetching:
  assumes "step e (Fetching l) st = (t, st1)"
  shows "(\<exists>err. t = Finished (Inl err) \<and> scans (trace st1) = scans (trace st)) \<or>
         (\<exists>p cmd. t = Scanning l p cmd \<and> scans (trace st1) = scans (trace st) @ [cmd])"
proof -
  obtain out where out: "generateReport_fetched e l (rp e (l_httpUrl l)) st = (out, st1)"
    using assms by (auto simp: step_def split: prod.splits fetched.splits)
  show ?thesis
  proof (cases out)
    case (Thrown err)
    with assms out fetched_trace(2) [OF out] show ?thesis
      by (auto simp: step_def)
  next
    case (AwaitExec l' p cmd)
    with assms out fetched_trace(2) [OF out] fetched_AwaitExec [OF out [unfolded AwaitExec]]
    show ?thesis
      by (auto simp: step_def)
  qed
qed

lemma step_Scanning:
  assumes "step e (Scanning l p cmd) st = (t, st1)"
  shows "\<exists>r. t = Finished r \<and> scans (trace st1) = scans (trace st)"
proof -
  obtain outcome fs' where exec: "executeCommand e cmd (fs st) = (outcome, fs')"
    by (cases "executeCommand e cmd (fs st)")
  obtain r st2 where sc: "generateReport_scanned l p outcome (st\<lparr>fs := fs'\<rparr>) = (r, st2)"
    by (cases "generateReport_scanned l p outcome (st\<lparr>fs := fs'\<rparr>)")
  from assms exec sc scanned_trace(2) [OF sc] show ?thesis
    by (auto simp: step_def)
qed

lemma run_length: "run sch ts st = (ts', st') \<Longrightarrow> length ts' = length ts"
proof (induction sch arbitrary: ts st)
  case Nil
  then show ?case by simp
next
  case (Cons a sch)
  obtain i e where a: "a = (i, e)" by (cases a)
  show ?case
  proof (cases "i < length ts")
    case True
    obtain t st1 where st: "step e (ts ! i) st = (t, st1)"
      by (cases "step e (ts ! i) st")
    with Cons.prems a True have "run sch (ts[i := t]) st1 = (ts', st')"
      by simp
    from Cons.IH [OF this] show ?thesis by simp
  next
    case False
    with Cons a show ?thesis by simp
  qed
qed

lemma run_Finished:
  "run sch ts st = (ts', st') \<Longrightarrow> j < length ts \<Longrightarrow> ts ! j = Finished r \<Longrightarrow> ts' ! j = Finished r"
proof (induction sch arbitrary: ts st)
  case Nil
  then show ?case by simp
next
  case (Cons a sch)
  obtain i e where a: "a = (i, e)" by (cases a)
  show ?case
  proof (cases "i < length ts")
    case True
    obtain t st1 where st: "step e (ts ! i) st = (t, st1)"
      by (cases "step e (ts ! i) st")
    with Cons.prems a True have run: "run sch (ts[i := t]) st1 = (ts', st')"
      by simp
    have "(ts[i := t]) ! j = Finished r"
    proof (cases "i = j")
      case True
      with st Cons.prems show ?thesis by simp
    next
      case False
      with Cons.prems show ?thesis by simp
    qed
    with Cons.IH [OF run] Cons.prems show ?thesis by simp
  next
    case False
    with Cons a show ?thesis by simp
  qed
qed

lemma owed_update:
  assumes "i < length ts"
  shows "sum_list (map owed (ts[i := t])) + owed (ts ! i) = sum_list (map owed ts) + owed t"
  using assms
proof (induction ts arbitrary: i)
  case Nil
  then show ?case by simp
next
  case (Cons x ts)
  then show ?case by (cases i) auto
qed

lemma run_scans:
  assumes "run sch ts st = (ts', st')"
    and "\<forall>t \<in> set ts. in_flight t"
    and "\<forall>t \<in> set ts'. succeeded t"
  shows "length (scans (trace st')) = length (scans (trace st)) + sum_list (map owed ts)"
  using assms
proof (induction sch arbitrary: ts st)
  case Nil
  have "owed t = 0" if "succeeded t" for t
    using that by (cases t) simp_all
  with Nil have "\<forall>x \<in> set ts. owed x = 0" by auto
  then have "sum_list (map owed ts) = 0"
    by (simp add: sum_list_eq_0_iff)
  with Nil show ?case by simp
next
  case (Cons a sch)
  obtain i e where a: "a = (i, e)" by (cases a)
  show ?case
  proof (cases "i < length ts")
    case False
    with Cons a show ?thesis by simp
  next
    case True
    obtain t st1 where st: "step e (ts ! i) st = (t, st1)"
      by (cases "step e (ts ! i) st")
    with Cons.prems a True have run: "run sch (ts[i := t]) st1 = (ts', st')"
      by simp
    have flight_i: "in_flight (ts ! i)"
      using Cons.prems(2) True by simp
    have step_facts: "in_flight t \<and>
        length (scans (trace st1)) + owed t = length (scans (trace st)) + owed (ts ! i) \<and>
        (\<forall>err. t \<noteq> Finished (Inl err) \<or> ts ! i = t)"
    proof (cases "ts ! i")
      case (Start d os)
      with flight_i show ?thesis by simp
    next
      case (Fetching l)
      from step_Fetching [OF st [unfolded Fetching]]
      have "\<exists>p cmd. t = Scanning l p cmd \<and> scans (trace st1) = scans (trace st) @ [cmd]"
      proof
        assume "\<exists>err. t = Finished (Inl err) \<and> scans (trace st1) = scans (trace st)"
        then obtain err where t: "t = Finished (Inl err)" by blast
        from run_length [OF run] True have "i < length (ts[i := t])" by simp
        from run_Finished [OF run this] t True have "ts' ! i = Finished (Inl err)"
          by simp
        moreover from run_length [OF run] True have "ts' ! i \<in> set ts'"
          by simp
        ultimately show ?thesis
          using Cons.prems(3) by fastforce
      qed
      with Fetching show ?thesis by auto
    next
      case (Scanning l p cmd)
      from step_Scanning [OF st [unfolded Scanning]] Scanning
      obtain r where t: "t = Finished r" and sc: "scans (trace st1) = scans (trace st)"
        by blast
      have "\<forall>err. t \<noteq> Finished (Inl err)"
      proof (intro allI notI)
        fix err assume terr: "t = Finished (Inl err)"
        from run_length [OF run] True have "i < length (ts[i := t])" by simp
        from run_Finished [OF run this] terr True have "ts' ! i = Finished (Inl err)"
          by simp
        moreover from run_length [OF run] True have "ts' ! i \<in> set ts'"
          by simp
        ultimately show False
          using Cons.prems(3) by fastforce
      qed
      with t sc Scanning show ?thesis by simp
    next
      case (Finished r)
      with st flight_i show ?thesis by auto
    qed
    have "\<forall>x \<in> set (ts[i := t]). in_flight x"
      using Cons.prems(2) step_facts by (auto dest: set_update_subset_insert [THEN subsetD])
    from Cons.IH [OF run this Cons.prems(3)] owed_update [OF True, of t] step_facts
    show ?thesis by linarith
  qed
qed

section \<open>Two calls for the example descriptor, taking turns\<close>

lemma step_first: "step scan_ok (Start file_a config0) world0 = (Fetching locals_1, world_1)"
  by (simp add: world_1_def step_eval fs_eval scan_ok_def file_a_url config0_def world0_def
      locals_1_def)

lemma world_1_eq:
  "world_1 =
     \<lparr>resultCache = Map.empty,
      fs = \<lparr>dirs = [[[], ''tmp'', ''av-Ab3dE9''], [[]], [[], ''tmp'']], files = []\<rparr>,
      trace = [LogInfo (''Downloading https://hs/_matrix/media/v1/download/hs/abc, '' @
                        ''writing to /tmp/av-Ab3dE9/unsafeEncryptedFile''),
               HttpGet ''https://hs/_matrix/media/v1/download/hs/abc'']\<rparr>"
  by (simp add: world_1_def step_eval fs_eval scan_ok_def file_a_url config0_def world0_def)

lemma step_second: "step scan_ok2 (Start file_a config0) world_1 = (Fetching locals_2, world_2)"
  unfolding world_2_def
  by (simp add: world_1_eq step_eval fs_eval scan_ok2_def scan_ok_def file_a_url config0_def
      locals_2_def locals_1_def)

lemma world_2_eq:
  "world_2 =
     \<lparr>resultCache = Map.empty,
      fs = \<lparr>dirs = [[[], ''tmp'', ''av-Qw7rT2''], [[], ''tmp'', ''av-Ab3dE9''], [[]], [[], ''tmp'']],
            files = []\<rparr>,
      trace = [LogInfo (''Downloading https://hs/_matrix/media/v1/download/hs/abc, '' @
                        ''writing to /tmp/av-Ab3dE9/unsafeEncryptedFile''),
               HttpGet ''https://hs/_matrix/media/v1/download/hs/abc'',
               LogInfo (''Downloading https://hs/_matrix/media/v1/download/hs/abc, '' @
                        ''writing to /tmp/av-Qw7rT2/unsafeEncryptedFile''),
               HttpGet ''https://hs/_matrix/media/v1/download/hs/abc'']\<rparr>"
  unfolding world_2_def
  by (simp add: world_1_eq step_eval fs_eval scan_ok2_def scan_ok_def file_a_url config0_def)

lemma locals_key:
  "js_get (l_file locals_1) ''key'' = Inr None" "js_get (l_file locals_2) ''key'' = Inr None"
  by (simp_all add: locals_1_def locals_2_def file_a_key)

lemma run_rest:
  "fst (run (drop 2 taking_turns) [Fetching locals_1, Fetching locals_2] world_2) =
     [Finished (Inr (Verdict verdict_a)), Finished (Inr (Verdict verdict_a))] \<and>
   scans (trace (snd (run (drop 2 taking_turns) [Fetching locals_1, Fetching locals_2] world_2))) =
     [''/usr/local/bin/scan /tmp/av-Ab3dE9/unsafeEncryptedFile'',
      ''/usr/local/bin/scan /tmp/av-Qw7rT2/unsafeEncryptedFile'']"
  by (simp add: world_2_eq taking_turns_def step_eval fs_eval scan_ok2_def scan_ok_def
      locals_1_def locals_2_def file_a_key verdict_a_def)

section \<open>Failures of the download and of the decryption\<close>

lemma mkdtempSync_missing_directory:
  "mkdtempSync ''/tmp/no-such-dir/../av-'' ''Ab3dE9'' (fs world0) =
     Inl (FsError ENOENT ''/tmp/no-such-dir/../av-Ab3dE9'')"
  by (simp add: fs_eval world0_def)

lemma mkdtempSync_dot_dot:
  "mkdtempSync ''/tmp/../tmp/./av-'' ''Ab3dE9'' (fs world0) =
     Inr (''/tmp/../tmp/./av-Ab3dE9'',
          \<lparr>dirs = [[[], ''tmp'', ''av-Ab3dE9''], [[]], [[], ''tmp'']], files = []\<rparr>)"
  by (simp add: fs_eval world0_def)

lemma generateReport_null:
  "generateReport e JNull os st = (Inl (TypeError ''null.url''), st)"
  by (simp add: generateReport_def start_null)









section \<open>The claims\<close>

text \<open>
  C1.  When a call of \<^verbatim>\<open>generateReport\<close> returns a verdict, a second call with the same
  descriptor and configuration returns the same verdict from the cache, whatever the
  collaborators would do: the state after it is the state before it with one more log
  line, so there is no request, no decryption and no scan, and neither the file system
  nor the cache changes.
\<close>

theorem generateReport_twice:
  assumes "generateReport e d os st = (Inr r, st')"
  shows "(\<exists>u. js_get d ''url'' = Inr (Some u) \<and>
            generateReport e' d os st' =
              (Inr r,
               emit [LogInfo (''Returning cached result: url = '' @ js_toString u @
                              '', clean = '' @ show_clean (clean_of r))] st')) \<and>
         requests (trace (snd (generateReport e' d os st'))) = requests (trace st') \<and>
         decryptions (trace (snd (generateReport e' d os st'))) = decryptions (trace st') \<and>
         scans (trace (snd (generateReport e' d os st'))) = scans (trace st') \<and>
         fs (snd (generateReport e' d os st')) = fs st' \<and>
         resultCache (snd (generateReport e' d os st')) = resultCache st'"
proof -
  from generateReport_Inr(3) [OF assms]
  obtain u where u: "js_get d ''url'' = Inr (Some u)" and rest: "url_slice6 (Some u) \<noteq> None"
    by blast
  have "generateReport e' d os st' =
      (Inr r,
       emit [LogInfo (''Returning cached result: url = '' @ js_toString u @
                      '', clean = '' @ show_clean (clean_of r))] st')"
    using start_cache_hit [OF generateReport_Inr(1,2) [OF assms] u rest, of e']
    by (simp add: generateReport_def)
  with u show ?thesis by simp
qed

theorem generateReport_twice_witness:
  "generateReport scan_ok file_a config0 world0 = (Inr (Verdict verdict_a), world_a) \<and>
   generateReport server_down file_a config0 world_a =
     (Inr (Verdict verdict_a),
      emit [LogInfo ''Returning cached result: url = mxc://hs/abc, clean = true''] world_a) \<and>
   requests (trace (snd (generateReport server_down file_a config0 world_a))) =
     [''https://hs/_matrix/media/v1/download/hs/abc''] \<and>
   scans (trace (snd (generateReport server_down file_a config0 world_a))) =
     [''/usr/local/bin/scan /tmp/av-Ab3dE9/unsafeEncryptedFile'']"
proof -
  note again = generateReport_twice [OF first_run, of server_down]
  have "requests (trace world_a) = [''https://hs/_matrix/media/v1/download/hs/abc'']"
    and "scans (trace world_a) = [''/usr/local/bin/scan /tmp/av-Ab3dE9/unsafeEncryptedFile'']"
    by (simp_all add: world_a_def)
  with again first_run show ?thesis
    by (simp add: file_a_url verdict_a_def show_clean_def show_bool_def)
qed

text \<open>
  C2.  The claim is that the temporary directory and files are gone on every exit path.
  After a failed download the directory made by \<^verbatim>\<open>mkdtempSync\<close> is still there, and after
  a failed decryption so is the downloaded file in it.
\<close>

theorem generateReport_leaves_temp_directory:
  "generateReport server_down file_a config0 world0 =
     (Inl (ClientError 502 ''Failed to get requested URL''), world_f) \<and>
   fs_key (fs world_f) ''/tmp/av-Zz91xQ'' = Inr [[], ''tmp'', ''av-Zz91xQ''] \<and>
   \<not> is_dir (fs world0) [[], ''tmp'', ''av-Zz91xQ''] \<and>
   is_dir (fs world_f) [[], ''tmp'', ''av-Zz91xQ''] \<and>
   generateReport wrong_key file_k config0 world0 =
     (Inl (ClientError 400 ''Failed to decrypt file''), world_k) \<and>
   fs_key (fs world_k) ''/tmp/av-k3Y0oo/unsafeEncryptedFile'' =
     Inr [[], ''tmp'', ''av-k3Y0oo'', ''unsafeEncryptedFile''] \<and>
   is_dir (fs world_k) [[], ''tmp'', ''av-k3Y0oo''] \<and>
   is_file (fs world_k) [[], ''tmp'', ''av-k3Y0oo'', ''unsafeEncryptedFile'']"
  using failed_run undecryptable_run
  by (simp add: fs_eval world0_def world_f_def world_k_def)

text \<open>
  C3, as stated, fails: \<open>file_a\<close> and \<open>file_b\<close> have the same fields in a different order
  and different fingerprints.
\<close>

theorem fingerprint_field_order_counterexample:
  "reordered file_a file_b \<and> fingerprint file_a \<noteq> fingerprint file_b"
proof -
  have "reordered file_a file_b"
    by (simp add: file_a_def file_b_def)
  moreover have "fingerprint file_a \<noteq> fingerprint file_b"
    by (simp add: fingerprint_file_a fingerprint_file_b)
  ultimately show ?thesis by simp
qed

text \<open>
  C3, amended.  The fingerprint is a function of the text that \<^verbatim>\<open>JSON.stringify\<close> gives for
  the descriptor, in which the fields stand in the order the descriptor has them: two
  descriptors with the same text have the same fingerprint, and the secret in a freshly
  computed verdict is the base64 SHA-256 digest of that text, whatever the state, the
  options and the collaborators are.
\<close>

theorem fingerprint_serialization:
  assumes "JSON_stringify d1 = JSON_stringify d2"
    and "resultCache st1 (fingerprint d1) = None"
    and "generateReport e1 d1 os1 st1 = (Inr (Verdict v1), st1')"
    and "resultCache st2 (fingerprint d2) = None"
    and "generateReport e2 d2 os2 st2 = (Inr (Verdict v2), st2')"
  shows "fingerprint d1 = fingerprint d2 \<and>
         resultSecret v1 = base64sha256 (JSON_stringify d1) \<and>
         resultSecret v2 = resultSecret v1"
  using assms(1) generateReport_Inr_secret [OF assms(3) assms(2)]
    generateReport_Inr_secret [OF assms(5) assms(4)]
  by (simp add: fingerprint_def)

theorem fingerprint_serialization_witness:
  "JSON_stringify file_a = JSON_stringify file_a \<and>
   resultCache world0 (fingerprint file_a) = None \<and>
   generateReport scan_ok file_a config0 world0 = (Inr (Verdict verdict_a), world_a) \<and>
   resultCache world_f (fingerprint file_a) = None \<and>
   generateReport scan_ok file_a config0 world_f = (Inr (Verdict verdict_a), world_g) \<and>
   resultSecret verdict_a = base64sha256 (JSON_stringify file_a)"
proof -
  have m0: "resultCache world0 (fingerprint file_a) = None"
    by (simp add: world0_def)
  have mf: "resultCache world_f (fingerprint file_a) = None"
    by (simp add: world_f_def)
  from fingerprint_serialization [OF refl m0 first_run mf retry_run] m0 mf first_run retry_run
  show ?thesis by simp
qed



text \<open>
  C5.  After a call of \<^verbatim>\<open>generateReport\<close> that returned a verdict, \<^verbatim>\<open>getReport\<close> on the
  fingerprint of the descriptor answers \<open>scanned = true\<close> with the \<open>clean\<close> and \<open>info\<close> of
  that verdict.
\<close>

theorem getReport_after_generateReport:
  assumes "generateReport e d os st = (Inr r, st')"
  shows "\<exists>v. r = Verdict v \<and>
             getReport st' (fingerprint d) =
               \<lparr>report_clean = Some (clean v), scanned = True, report_info = Some (info v)\<rparr>"
  using generateReport_Inr(1) [OF assms]
  by (auto simp: getReport_def js_lookup_fingerprint)

theorem getReport_after_generateReport_witness:
  "generateReport scan_ok file_a config0 world0 = (Inr (Verdict verdict_a), world_a) \<and>
   getReport world_a (fingerprint file_a) =
     \<lparr>report_clean = Some True, scanned = True, report_info = Some ''File clean''\<rparr>"
  using getReport_after_generateReport [OF first_run] first_run
  by (simp add: verdict_a_def)

text \<open>
  C6.  The claim is that every secret without a cache entry gets \<open>scanned = false\<close>.  On the
  empty cache the secret \<open>constructor\<close> gets \<open>scanned = true\<close> with \<open>clean\<close> and \<open>info\<close>
  undefined: the lookup finds the member that the cache object inherits.
\<close>

theorem getReport_constructor:
  "getReport world0 ''constructor'' =
     \<lparr>report_clean = None, scanned = True, report_info = None\<rparr>"
  by (simp add: getReport_def js_lookup_def world0_def Object_prototype_def)

text \<open>
  C7, as stated, fails: two calls for the same descriptor that take turns on an empty
  cache both return a verdict, and there are two requests and two runs of the scanner.
\<close>

theorem concurrent_calls_counterexample:
  "fst (run taking_turns [Start file_a config0, Start file_a config0] world0) =
     [Finished (Inr (Verdict verdict_a)), Finished (Inr (Verdict verdict_a))] \<and>
   resultCache world0 (fingerprint file_a) = None \<and>
   requests (trace (snd (run taking_turns [Start file_a config0, Start file_a config0] world0))) =
     [''https://hs/_matrix/media/v1/download/hs/abc'',
      ''https://hs/_matrix/media/v1/download/hs/abc''] \<and>
   scans (trace (snd (run taking_turns [Start file_a config0, Start file_a config0] world0))) =
     [''/usr/local/bin/scan /tmp/av-Ab3dE9/unsafeEncryptedFile'',
      ''/usr/local/bin/scan /tmp/av-Qw7rT2/unsafeEncryptedFile'']"
  using run_taking_turns by (simp add: world0_def)

text \<open>
  C7, amended.  Calls are not coalesced.  When a second call for the same descriptor
  starts while the first waits for its download, the second is not answered from the
  cache and does not wait for the first: if it gets past \<^verbatim>\<open>mkdtempSync\<close> it sends its own
  request, and in every schedule in which both calls then return a verdict the scanner
  runs twice.
\<close>

theorem concurrent_calls_not_coalesced:
  assumes "step e1 (Start d os) st = (Fetching l1, st1)"
    and "step e2 (Start d os) st1 = (t2, st2)"
  shows "\<not> succeeded t2 \<and>
         (\<forall>l2. t2 = Fetching l2 \<longrightarrow>
            requests (trace st2) = requests (trace st) @ [l_httpUrl l1, l_httpUrl l2]) \<and>
         (\<forall>sch ts' st'.
            run sch [Fetching l1, t2] st2 = (ts', st') \<longrightarrow>
            (\<forall>t \<in> set ts'. succeeded t) \<longrightarrow>
            length (scans (trace st')) = length (scans (trace st)) + 2)"
proof (intro conjI allI impI)
  note first = step_Start [OF assms(1)]
  note second = step_Start [OF assms(2)]
  from first(4) [OF refl] first(2) have miss: "js_lookup (resultCache st1) (fingerprint d) = None"
    by simp
  with second(3) show not_cached: "\<not> succeeded t2"
    by blast
  {
    fix l2 assume "t2 = Fetching l2"
    from second(4) [OF this] first(4) [OF refl]
    show "requests (trace st2) = requests (trace st) @ [l_httpUrl l1, l_httpUrl l2]"
      by simp
  }
  fix sch ts' st'
  assume run: "run sch [Fetching l1, t2] st2 = (ts', st')"
    and ok: "\<forall>t \<in> set ts'. succeeded t"
  have len: "length ts' = 2"
    using run_length [OF run] by simp
  have t2: "\<exists>l2. t2 = Fetching l2"
  proof (cases t2)
    case (Start d' os')
    with assms(2) show ?thesis
      by (auto simp: step_def split: prod.splits started.splits)
  next
    case (Fetching l2)
    then show ?thesis by simp
  next
    case (Scanning l p cmd)
    with assms(2) show ?thesis
      by (auto simp: step_def split: prod.splits started.splits)
  next
    case (Finished r)
    from run_Finished [OF run, of 1 r] Finished have "ts' ! 1 = Finished r"
      by simp
    moreover from len have "ts' ! 1 \<in> set ts'"
      by simp
    ultimately have "succeeded (Finished r)"
      using ok by fastforce
    with not_cached Finished show ?thesis by simp
  qed
  then have "\<forall>t \<in> set [Fetching l1, t2]. in_flight t"
    by auto
  from run_scans [OF run this ok] t2 first(1) second(1)
  show "length (scans (trace st')) = length (scans (trace st)) + 2"
    by auto
qed

theorem concurrent_calls_not_coalesced_witness:
  "step scan_ok (Start file_a config0) world0 = (Fetching locals_1, world_1) \<and>
   step scan_ok2 (Start file_a config0) world_1 = (Fetching locals_2, world_2) \<and>
   requests (trace world_2) = requests (trace world0) @ [l_httpUrl locals_1, l_httpUrl locals_2] \<and>
   fst (run (drop 2 taking_turns) [Fetching locals_1, Fetching locals_2] world_2) =
     [Finished (Inr (Verdict verdict_a)), Finished (Inr (Verdict verdict_a))] \<and>
   length (scans (trace (snd (run (drop 2 taking_turns) [Fetching locals_1, Fetching locals_2]
                                world_2)))) =
     length (scans (trace world0)) + 2"
proof -
  note general = concurrent_calls_not_coalesced [OF step_first step_second]
  have ok: "\<forall>t \<in> set (fst (run (drop 2 taking_turns) [Fetching locals_1, Fetching locals_2] world_2)).
      succeeded t"
    using run_rest by simp
  have "run (drop 2 taking_turns) [Fetching locals_1, Fetching locals_2] world_2 =
      (fst (run (drop 2 taking_turns) [Fetching locals_1, Fetching locals_2] world_2),
       snd (run (drop 2 taking_turns) [Fetching locals_1, Fetching locals_2] world_2))"
    by simp
  with general ok
  have "length (scans (trace (snd (run (drop 2 taking_turns) [Fetching locals_1, Fetching locals_2]
      world_2)))) = length (scans (trace world0)) + 2"
    by blast
  with general run_rest step_first step_second show ?thesis
    by blast
qed

text \<open>
  C8, as stated, fails for a short secret: the text written for the secret \<open>abc\<close> holds
  the whole secret.
\<close>

theorem redactedSecret_short_counterexample:
  "redactedSecret ''abc'' = ''abc...abc'' \<and> sublist ''abc'' (redactedSecret ''abc'')"
proof -
  have eq: "redactedSecret ''abc'' = ''abc'' @ ''...abc''"
    by (simp add: redactedSecret_eq)
  then have "prefix ''abc'' (redactedSecret ''abc'')"
    by (simp only: prefixI)
  with eq show ?thesis
    by (simp add: prefix_imp_sublist)
qed

text \<open>
  C8, amended.  For a secret of more than 11 characters, as every fingerprint is, the text
  written to the log is the first four characters, three dots and the last four
  characters: 11 characters that do not contain the secret and do not depend on what
  stands between the first four and the last four.
\<close>

theorem redactedSecret_long:
  assumes "11 < length secret"
  shows "redactedSecret secret = take 4 secret @ ''...'' @ drop (length secret - 4) secret \<and>
         length (redactedSecret secret) = 11 \<and>
         \<not> sublist secret (redactedSecret secret) \<and>
         (\<forall>middle. redactedSecret (take 4 secret @ middle @ drop (length secret - 4) secret) =
                     redactedSecret secret) \<and>
         trace (snd (scanReportHandler secret st)) =
           trace st @
           [LogInfo (''Returning scan report: secret = '' @
                     take 4 secret @ ''...'' @ drop (length secret - 4) secret @
                     '' , scanned = '' @ show_bool (scanned (getReport st secret)) @
                     '', clean = '' @ show_clean (report_clean (getReport st secret)))]"
proof -
  have len: "length (redactedSecret secret) = 11"
    using assms by (simp add: redactedSecret_eq)
  have "\<not> sublist secret (redactedSecret secret)"
  proof
    assume "sublist secret (redactedSecret secret)"
    then have "length secret \<le> length (redactedSecret secret)"
      by (rule sublist_length_le)
    with len assms show False by simp
  qed
  moreover have "redactedSecret (take 4 secret @ middle @ drop (length secret - 4) secret) =
      redactedSecret secret" for middle
    using assms by (simp add: redactedSecret_eq)
  ultimately show ?thesis
    using len by (simp add: redactedSecret_eq scanReportHandler_def Let_def)
qed

theorem redactedSecret_long_witness:
  "11 < length ''abcdefghijklmnop'' \<and>
   redactedSecret ''abcdefghijklmnop'' = ''abcd...mnop'' \<and>
   \<not> sublist ''abcdefghijklmnop'' (redactedSecret ''abcdefghijklmnop'') \<and>
   redactedSecret ''abcdXYmnop'' = redactedSecret ''abcdefghijklmnop''"
  using redactedSecret_long [of "''abcdefghijklmnop''" world0]
  by (simp add: redactedSecret_eq)

text \<open>
  C9.  When \<open>baseUrl\<close>, \<open>tempDirectory\<close> or \<open>script\<close> is missing from the options,
  \<^verbatim>\<open>generateReport\<close> throws the configuration error for every descriptor and leaves the
  state as it was: nothing is requested, decrypted, scanned or cached.  The value
  \<^verbatim>\<open>null\<close> is no descriptor: line 142 reads its \<open>url\<close> before the options are checked,
  and that throws a \<open>TypeError\<close>, again with the state as it was.
\<close>

theorem generateReport_missing_config:
  assumes "baseUrl os = None \<or> tempDirectory os = None \<or> script os = None"
  shows "(d \<noteq> JNull \<longrightarrow>
            generateReport e d os st =
              (Inl (Error ''Expected baseUrl, tempDirectory and script in opts''), st)) \<and>
         (d = JNull \<longrightarrow> generateReport e d os st = (Inl (TypeError ''null.url''), st))"
  using start_missing_config [OF assms, of d e st]
  by (auto simp: generateReport_def start_null)

theorem generateReport_missing_config_witness:
  "script (config0\<lparr>script := None\<rparr>) = None \<and> file_a \<noteq> JNull \<and>
   generateReport scan_ok file_a (config0\<lparr>script := None\<rparr>) world0 =
     (Inl (Error ''Expected baseUrl, tempDirectory and script in opts''), world0) \<and>
   generateReport scan_ok JNull (config0\<lparr>script := None\<rparr>) world0 =
     (Inl (TypeError ''null.url''), world0)"
  using generateReport_missing_config [of "config0\<lparr>script := None\<rparr>" file_a scan_ok world0]
    generateReport_missing_config [of "config0\<lparr>script := None\<rparr>" JNull scan_ok world0]
  by (simp add: file_a_def)



end
